theory Spec2Isabelle
  imports Main
begin

section \<open>Strings, errors and the token cursor\<close>

type_synonym String = string
type_synonym StringList = "string list"

text \<open>Every failure of the engine is a \<open>BaseException\<close> carrying a message.\<close>

datatype error = BaseException (what: String)

text \<open>
  Modelled from the spec: the Token Cursor (\<open>Context\<close>, declared in context.hpp) offers
  \<open>next\<close>, \<open>prepend\<close> and \<open>atEnd\<close> and no backward seeking, so the cursor is
  the list of tokens not yet consumed. \<open>next\<close> returns the current token and advances
  (nothing at the end), \<open>prepend\<close> makes a token the very next one returned.
\<close>

type_synonym Context = "String list"

definition Context_atEnd :: "Context \<Rightarrow> bool" where
  "Context_atEnd ctx = (ctx = [])"

definition Context_next :: "Context \<Rightarrow> (String \<times> Context) option" where
  "Context_next ctx = (case ctx of [] \<Rightarrow> None | t # ts \<Rightarrow> Some (t, ts))"

definition Context_prepend :: "String \<Rightarrow> Context \<Rightarrow> Context" where
  "Context_prepend tok ctx = tok # ctx"

text \<open>\<open>word.find( '=' )\<close>: the index of the first occurrence, \<open>None\<close> for \<open>npos\<close>.\<close>

fun find_char :: "char \<Rightarrow> String \<Rightarrow> nat option" where
  "find_char c [] = None"
| "find_char c (x # xs) =
     (if x = c then Some 0 else map_option Suc (find_char c xs))"

section \<open>The argument nodes and the engine's state\<close>

text \<open>Modelled from the spec: the type tag of a node; the engine only tests for \<open>Command\<close>.\<close>

datatype ArgType = Flag | Named | Command

datatype CmdLineOpts = Empty | CommandIsRequired

text \<open>
  The engine: the cursor, the registered top-level nodes in registration order (\<open>'n\<close> is
  the type of node references), the active command, the option, and the mutable state
  of the argument objects the references point to (\<open>'s\<close>).
\<close>

record ('n, 's) CmdLine =
  m_context :: Context
  m_args :: "'n list"
  m_command :: "'n option"
  m_opt :: CmdLineOpts
  heap :: 's

text \<open>
  The collaborators that are declared outside cmd_line.hpp are parameters of the model:
  the virtual methods of \<open>ArgIface\<close> and \<open>Command\<close>, and the word classifiers
  \<open>details::isArgument\<close> and \<open>details::isFlag\<close>. A method that can throw returns
  the error as a value; \<open>process\<close> sees the engine through the node's back-reference
  and returns the cursor and the argument states as it leaves them, also when it throws.
\<close>

record ('n, 's) ArgIface =
  arg_name :: "'n \<Rightarrow> String"
  arg_type :: "'n \<Rightarrow> ArgType"
  arg_isWithValue :: "'n \<Rightarrow> bool"
  arg_process :: "'n \<Rightarrow> ('n, 's) CmdLine \<Rightarrow> error option \<times> Context \<times> 's"
  arg_findArgument :: "'n \<Rightarrow> String \<Rightarrow> 'n option"
  cmd_findChild :: "'n \<Rightarrow> String \<Rightarrow> 'n option"
  arg_isMisspelledName :: "'n \<Rightarrow> String \<Rightarrow> StringList \<Rightarrow> bool \<times> StringList"
  cmd_isMisspelledCommand :: "'n \<Rightarrow> String \<Rightarrow> StringList \<Rightarrow> bool \<times> StringList"
  arg_checkCorrectnessBeforeParsing ::
    "'n \<Rightarrow> StringList \<Rightarrow> StringList \<Rightarrow> error + (StringList \<times> StringList)"
  arg_checkCorrectnessAfterParsing :: "'n \<Rightarrow> 's \<Rightarrow> error option"
  isArgument :: "String \<Rightarrow> bool"
  isFlag :: "String \<Rightarrow> bool"

section \<open>Diagnostics\<close>

text \<open>\<open>details::formatCorrectNamesString\<close>: the loop with its \<open>first\<close> flag.\<close>

fun formatLoop :: "StringList \<Rightarrow> bool \<Rightarrow> String \<Rightarrow> String" where
  "formatLoop [] first res = res"
| "formatLoop (name # names) first res =
     formatLoop names False ((if \<not> first then res @ '' or '' else res) @ name)"

definition formatCorrectNamesString :: "StringList \<Rightarrow> String" where
  "formatCorrectNamesString names =
     (if names \<noteq> [] then formatLoop names True [] else [])"

text \<open>The body of the lambda of \<open>CmdLine::isMisspelledName\<close>, on \<open>(ret, possibleNames)\<close>.\<close>

definition isMisspelledName_visit ::
  "('n, 's) ArgIface \<Rightarrow> ('n, 's) CmdLine \<Rightarrow> String \<Rightarrow> 'n \<Rightarrow>
   bool \<times> StringList \<Rightarrow> bool \<times> StringList" where
  "isMisspelledName_visit iface cl name arg acc =
     (case acc of (ret, possibleNames) \<Rightarrow>
        if arg_type iface arg = Command then
          if Some arg = m_command cl then
            (case arg_isMisspelledName iface arg name possibleNames of
               (b, names') \<Rightarrow> (if b then True else ret, names'))
          else
            (case cmd_isMisspelledCommand iface arg name possibleNames of
               (b, names') \<Rightarrow> (if b then True else ret, names'))
        else
          (case arg_isMisspelledName iface arg name possibleNames of
             (b, names') \<Rightarrow> (if b then True else ret, names')))"

definition isMisspelledName ::
  "('n, 's) ArgIface \<Rightarrow> ('n, 's) CmdLine \<Rightarrow> String \<Rightarrow> StringList \<Rightarrow> bool \<times> StringList" where
  "isMisspelledName iface cl name possibleNames =
     fold (isMisspelledName_visit iface cl name) (m_args cl) (False, possibleNames)"

text \<open>
  \<open>CmdLine::printInfoAboutUnknownArgument\<close>: \<open>Some e\<close> is the exception thrown,
  \<open>None\<close> would be a normal return.
\<close>

definition printInfoAboutUnknownArgument ::
  "('n, 's) ArgIface \<Rightarrow> ('n, 's) CmdLine \<Rightarrow> String \<Rightarrow> error option" where
  \<open>printInfoAboutUnknownArgument iface cl word =
     (case isMisspelledName iface cl word [] of
        (ret, correctNames) \<Rightarrow>
          if ret then
            Some (BaseException (''Unknown argument "'' @ word @
              ''".\<newline>\<newline>Probably you mean "'' @ formatCorrectNamesString correctNames @ ''".''))
          else
            Some (BaseException (''Unknown argument "'' @ word @ ''".'')))\<close>

section \<open>Lookup\<close>

text \<open>\<open>std::find_if\<close>: the first element satisfying the predicate, \<open>None\<close> for \<open>end()\<close>.\<close>

fun find_if :: "('a \<Rightarrow> bool) \<Rightarrow> 'a list \<Rightarrow> 'a option" where
  "find_if p [] = None"
| "find_if p (x # xs) = (if p x then Some x else find_if p xs)"

definition findArgument ::
  "('n, 's) ArgIface \<Rightarrow> ('n, 's) CmdLine \<Rightarrow> String \<Rightarrow> 'n option" where
  "findArgument iface cl name =
     (case find_if (\<lambda>arg. arg_findArgument iface arg name \<noteq> None) (m_args cl) of
        Some it \<Rightarrow>
          if arg_type iface it = Command then Some it
          else arg_findArgument iface it name
      | None \<Rightarrow>
          (case m_command cl of
             Some cmd \<Rightarrow>
               (case cmd_findChild iface cmd name of
                  Some tmp \<Rightarrow> Some tmp
                | None \<Rightarrow> None)
           | None \<Rightarrow> None))"

section \<open>Validation before and after parsing\<close>

text \<open>
  \<open>CmdLine::checkCorrectnessBeforeParsing\<close>. The first \<open>for_each\<close> sets the commands
  aside in \<open>cmds\<close> and checks every other node against \<open>flags\<close> and \<open>names\<close>; the
  second checks the commands. A throwing node ends the whole check.
\<close>

fun checkNonCommands ::
  "('n, 's) ArgIface \<Rightarrow> 'n list \<Rightarrow> 'n list \<times> StringList \<times> StringList \<Rightarrow>
   error + ('n list \<times> StringList \<times> StringList)" where
  "checkNonCommands iface [] acc = Inr acc"
| "checkNonCommands iface (arg # args) (cmds, flags, names) =
     (if arg_type iface arg = Command then
        checkNonCommands iface args (cmds @ [arg], flags, names)
      else
        (case arg_checkCorrectnessBeforeParsing iface arg flags names of
           Inl e \<Rightarrow> Inl e
         | Inr (flags', names') \<Rightarrow> checkNonCommands iface args (cmds, flags', names')))"

fun checkCommands ::
  "('n, 's) ArgIface \<Rightarrow> 'n list \<Rightarrow> StringList \<times> StringList \<Rightarrow>
   error + (StringList \<times> StringList)" where
  "checkCommands iface [] acc = Inr acc"
| "checkCommands iface (arg # cmds) (flags, names) =
     (case arg_checkCorrectnessBeforeParsing iface arg flags names of
        Inl e \<Rightarrow> Inl e
      | Inr (flags', names') \<Rightarrow> checkCommands iface cmds (flags', names'))"

definition checkCorrectnessBeforeParsing ::
  "('n, 's) ArgIface \<Rightarrow> ('n, 's) CmdLine \<Rightarrow> error option" where
  "checkCorrectnessBeforeParsing iface cl =
     (case checkNonCommands iface (m_args cl) ([], [], []) of
        Inl e \<Rightarrow> Some e
      | Inr (cmds, flags, names) \<Rightarrow>
          (case checkCommands iface cmds (flags, names) of
             Inl e \<Rightarrow> Some e
           | Inr _ \<Rightarrow> None))"

text \<open>\<open>CmdLine::checkCorrectnessAfterParsing\<close>: every node in turn, then the option.\<close>

fun checkArgsAfter :: "('n, 's) ArgIface \<Rightarrow> 'n list \<Rightarrow> 's \<Rightarrow> error option" where
  "checkArgsAfter iface [] h = None"
| "checkArgsAfter iface (arg # args) h =
     (case arg_checkCorrectnessAfterParsing iface arg h of
        Some e \<Rightarrow> Some e
      | None \<Rightarrow> checkArgsAfter iface args h)"

definition checkCorrectnessAfterParsing ::
  "('n, 's) ArgIface \<Rightarrow> ('n, 's) CmdLine \<Rightarrow> error option" where
  "checkCorrectnessAfterParsing iface cl =
     (case checkArgsAfter iface (m_args cl) (heap cl) of
        Some e \<Rightarrow> Some e
      | None \<Rightarrow>
          if m_opt cl = CommandIsRequired \<and> m_command cl = None then
            Some (BaseException ''Not specified command.'')
          else None)"

section \<open>The parse loop\<close>

text \<open>
  A result is the exception thrown, if any, and the engine as the call leaves it: an
  exception does not undo what the nodes have recorded before it.
\<close>

type_synonym ('n, 's) result = "error option \<times> ('n, 's) CmdLine"

text \<open>\<open>arg->process( m_context )\<close>.\<close>

definition process ::
  "('n, 's) ArgIface \<Rightarrow> 'n \<Rightarrow> ('n, 's) CmdLine \<Rightarrow> ('n, 's) result" where
  "process iface arg cl =
     (case arg_process iface arg cl of
        (r, ctx, h) \<Rightarrow> (r, cl\<lparr>m_context := ctx, heap := h\<rparr>))"

text \<open>The split of the word at its first \<open>=\<close> (the value goes back onto the cursor).\<close>

definition splitAtEq :: "String \<Rightarrow> Context \<Rightarrow> String \<times> Context" where
  "splitAtEq word ctx =
     (case find_char (CHR ''='') word of
        Some eqIt \<Rightarrow>
          (let val = drop (eqIt + 1) word;
               ctx' = (if val \<noteq> [] then Context_prepend val ctx else ctx)
           in (take eqIt word, ctx'))
      | None \<Rightarrow> (word, ctx))"

text \<open>The loop over the characters of a flags combo, from index \<open>i\<close>.\<close>

function flagsLoop ::
  "('n, 's) ArgIface \<Rightarrow> String \<Rightarrow> nat \<Rightarrow> ('n, 's) CmdLine \<Rightarrow> ('n, 's) result" where
  \<open>flagsLoop iface word i cl =
     (if i < length word then
        (let flag = ''-'' @ [word ! i] in
           case findArgument iface cl flag of
             None \<Rightarrow> (Some (BaseException (''Unknown argument "'' @ flag @ ''".'')), cl)
           | Some arg \<Rightarrow>
               if i < length word - 1 \<and> arg_isWithValue iface arg then
                 (Some (BaseException (''Only last argument in flags combo can be with value. Flags combo is "'' @
                    word @ ''".'')), cl)
               else
                 (case process iface arg cl of
                    (Some e, cl') \<Rightarrow> (Some e, cl')
                  | (None, cl') \<Rightarrow> flagsLoop iface word (Suc i) cl'))
      else (None, cl))\<close>
  by pat_completeness auto
termination
  by (relation "measure (\<lambda>(iface, word, i, cl). length word - i)") auto

text \<open>The classification and dispatch of the word (after the split).\<close>

definition dispatch ::
  "('n, 's) ArgIface \<Rightarrow> String \<Rightarrow> ('n, 's) CmdLine \<Rightarrow> ('n, 's) result" where
  \<open>dispatch iface word cl =
     (if isArgument iface word then
        (case findArgument iface cl word of
           Some arg \<Rightarrow> process iface arg cl
         | None \<Rightarrow> (printInfoAboutUnknownArgument iface cl word, cl))
      else if isFlag iface word then
        flagsLoop iface word 1 cl
      else
        (case findArgument iface cl word of
           Some tmp \<Rightarrow>
             if arg_type iface tmp = Command then
               (case m_command cl of
                  Some cmd \<Rightarrow>
                    (Some (BaseException (''Only one command can be specified. But you entered "'' @
                       arg_name iface cmd @ ''" and "'' @ arg_name iface tmp @ ''".'')), cl)
                | None \<Rightarrow> process iface tmp (cl\<lparr>m_command := Some tmp\<rparr>))
             else process iface tmp cl
         | None \<Rightarrow> (printInfoAboutUnknownArgument iface cl word, cl)))\<close>

text \<open>One iteration of the loop, for the word that \<open>next\<close> has just returned.\<close>

definition parseToken ::
  "('n, 's) ArgIface \<Rightarrow> String \<Rightarrow> ('n, 's) CmdLine \<Rightarrow> ('n, 's) result" where
  "parseToken iface word0 cl =
     (case splitAtEq word0 (m_context cl) of
        (word, ctx) \<Rightarrow> dispatch iface word (cl\<lparr>m_context := ctx\<rparr>))"

text \<open>
  The \<open>while\<close> loop. A node's \<open>process\<close> may leave any cursor behind, so the loop need
  not end: \<open>None\<close> is the run that never returns.
\<close>

partial_function (option) parseLoop ::
  "('n, 's) ArgIface \<Rightarrow> ('n, 's) CmdLine \<Rightarrow> ('n, 's) result option" where
  "parseLoop iface cl =
     (if Context_atEnd (m_context cl) then Some (None, cl)
      else
        (case Context_next (m_context cl) of
           None \<Rightarrow> None
         | Some (word, ctx) \<Rightarrow>
             (case parseToken iface word (cl\<lparr>m_context := ctx\<rparr>) of
                (Some e, cl') \<Rightarrow> Some (Some e, cl')
              | (None, cl') \<Rightarrow> parseLoop iface cl')))"

definition parse ::
  "('n, 's) ArgIface \<Rightarrow> ('n, 's) CmdLine \<Rightarrow> ('n, 's) result option" where
  "parse iface cl =
     (case checkCorrectnessBeforeParsing iface cl of
        Some e \<Rightarrow> Some (Some e, cl)
      | None \<Rightarrow>
          (case parseLoop iface cl of
             None \<Rightarrow> None
           | Some (Some e, cl') \<Rightarrow> Some (Some e, cl')
           | Some (None, cl') \<Rightarrow> Some (checkCorrectnessAfterParsing iface cl', cl')))"

text \<open>The engine after \<open>k\<close> iterations of the loop that threw nothing, if it gets there.\<close>

fun afterTokens ::
  "('n, 's) ArgIface \<Rightarrow> nat \<Rightarrow> ('n, 's) CmdLine \<Rightarrow> ('n, 's) CmdLine option" where
  "afterTokens iface 0 cl = Some cl"
| "afterTokens iface (Suc k) cl =
     (case Context_next (m_context cl) of
        None \<Rightarrow> None
      | Some (word, ctx) \<Rightarrow>
          (case parseToken iface word (cl\<lparr>m_context := ctx\<rparr>) of
             (Some e, cl') \<Rightarrow> None
           | (None, cl') \<Rightarrow> afterTokens iface k cl'))"

section \<open>A concrete family of nodes\<close>

text \<open>
  Modelled from the spec: the concrete argument kinds and the word classifiers (arg.hpp,
  command.hpp and utils.hpp are not part of src). A node has one identifying name, a
  type tag, the value-bearing and required marks and, for a command, its children.
  The argument states are the log of invocations, each with the value it consumed.
\<close>

datatype Node =
  Node (node_type: ArgType) (node_name: String) (node_withValue: bool)
       (node_required: bool) (node_children: "Node list")

type_synonym Log = "(String \<times> String option) list"

text \<open>
  Modelled from the spec: the argument form is the long, double-dash name; the flag
  combo form is a single dash followed by at least one character.
\<close>

definition simple_isArgument :: "String \<Rightarrow> bool" where
  "simple_isArgument word = (take 2 word = ''--'')"

definition simple_isFlag :: "String \<Rightarrow> bool" where
  "simple_isFlag word =
     (\<not> simple_isArgument word \<and> take 1 word = ''-'' \<and> 1 < length word)"

text \<open>
  Modelled from the spec: \<open>findArgument\<close> returns the node itself when the name is its
  own, else (for a command) searches the children; \<open>findChild\<close> searches the children only.
\<close>

fun simple_findArgument :: "Node \<Rightarrow> String \<Rightarrow> Node option"
  and simple_findInList :: "Node list \<Rightarrow> String \<Rightarrow> Node option" where
  "simple_findArgument (Node t nm wv rq ch) name =
     (if nm = name then Some (Node t nm wv rq ch)
      else if t = Command then simple_findInList ch name
      else None)"
| "simple_findInList [] name = None"
| "simple_findInList (c # cs) name =
     (case simple_findArgument c name of
        Some r \<Rightarrow> Some r
      | None \<Rightarrow> simple_findInList cs name)"

definition simple_findChild :: "Node \<Rightarrow> String \<Rightarrow> Node option" where
  "simple_findChild n name = simple_findInList (node_children n) name"

text \<open>
  Modelled from the spec: \<open>process\<close> records the invocation; a value-bearing node
  consumes the following token as its value and fails when the cursor is exhausted or
  the next token looks like another argument name.
\<close>

definition simple_process ::
  "Node \<Rightarrow> (Node, Log) CmdLine \<Rightarrow> error option \<times> Context \<times> Log" where
  "simple_process n cl =
     (if node_withValue n then
        (case Context_next (m_context cl) of
           None \<Rightarrow>
             (Some (BaseException (''MissingValueError: '' @ node_name n)), m_context cl, heap cl)
         | Some (v, ctx) \<Rightarrow>
             if simple_isArgument v \<or> simple_isFlag v then
               (Some (BaseException (''MissingValueError: '' @ node_name n)), m_context cl, heap cl)
             else (None, ctx, heap cl @ [(node_name n, Some v)]))
      else (None, m_context cl, heap cl @ [(node_name n, None)]))"

text \<open>
  Modelled from the spec: the similarity test is an edit distance within a small fixed
  threshold; a node appends its name when the candidate is within it, a command also
  asks its children, and \<open>isMisspelledCommand\<close> looks at the command's own name only.
\<close>

fun editDistance :: "String \<Rightarrow> String \<Rightarrow> nat" where
  "editDistance [] ys = length ys"
| "editDistance (x # xs) [] = Suc (length xs)"
| "editDistance (x # xs) (y # ys) =
     (if x = y then editDistance xs ys
      else Suc (min (editDistance xs ys)
                    (min (editDistance xs (y # ys)) (editDistance (x # xs) ys))))"

definition withinThreshold :: "String \<Rightarrow> String \<Rightarrow> bool" where
  "withinThreshold candidate name = (editDistance candidate name \<le> 2)"

definition simple_isMisspelledCommand ::
  "Node \<Rightarrow> String \<Rightarrow> StringList \<Rightarrow> bool \<times> StringList" where
  "simple_isMisspelledCommand n candidate names =
     (if withinThreshold candidate (node_name n) then (True, names @ [node_name n])
      else (False, names))"

fun simple_isMisspelledName :: "Node \<Rightarrow> String \<Rightarrow> StringList \<Rightarrow> bool \<times> StringList"
  and simple_misspelledInList :: "Node list \<Rightarrow> String \<Rightarrow> StringList \<Rightarrow> bool \<times> StringList" where
  "simple_isMisspelledName (Node t nm wv rq ch) candidate names =
     (case (if withinThreshold candidate nm then (True, names @ [nm]) else (False, names)) of
        (own, names') \<Rightarrow>
          if t = Command then
            (case simple_misspelledInList ch candidate names' of
               (sub, names'') \<Rightarrow> (own \<or> sub, names''))
          else (own, names'))"
| "simple_misspelledInList [] candidate names = (False, names)"
| "simple_misspelledInList (c # cs) candidate names =
     (case simple_isMisspelledName c candidate names of
        (b, names') \<Rightarrow>
          (case simple_misspelledInList cs candidate names' of
             (b', names'') \<Rightarrow> (b \<or> b', names'')))"

text \<open>
  Modelled from the spec: the check before parsing registers the node's name in the
  shared sets (single-dash names among the flags, the others among the names) and
  fails on a name that is already there; a command then checks its children.
\<close>

fun simple_checkBefore ::
  "Node \<Rightarrow> StringList \<Rightarrow> StringList \<Rightarrow> error + (StringList \<times> StringList)"
  and simple_checkBeforeList ::
  "Node list \<Rightarrow> StringList \<Rightarrow> StringList \<Rightarrow> error + (StringList \<times> StringList)" where
  "simple_checkBefore (Node t nm wv rq ch) flags names =
     (if nm \<in> set flags \<or> nm \<in> set names then
        Inl (BaseException (''RedefinitionError: '' @ nm))
      else
        (case (if simple_isFlag nm then (flags @ [nm], names) else (flags, names @ [nm])) of
           (flags', names') \<Rightarrow>
             if t = Command then simple_checkBeforeList ch flags' names'
             else Inr (flags', names')))"
| "simple_checkBeforeList [] flags names = Inr (flags, names)"
| "simple_checkBeforeList (c # cs) flags names =
     (case simple_checkBefore c flags names of
        Inl e \<Rightarrow> Inl e
      | Inr (flags', names') \<Rightarrow> simple_checkBeforeList cs flags' names')"

text \<open>
  Modelled from the spec: the check after parsing fails for a required node that was
  never invoked; the children of a command are asked only when the command was invoked.
\<close>

fun simple_checkAfter :: "Node \<Rightarrow> Log \<Rightarrow> error option"
  and simple_checkAfterList :: "Node list \<Rightarrow> Log \<Rightarrow> error option" where
  "simple_checkAfter (Node t nm wv rq ch) h =
     (if nm \<in> fst ` set h then
        (if t = Command then simple_checkAfterList ch h else None)
      else if rq then Some (BaseException (''RequiredArgumentMissingError: '' @ nm))
      else None)"
| "simple_checkAfterList [] h = None"
| "simple_checkAfterList (c # cs) h =
     (case simple_checkAfter c h of
        Some e \<Rightarrow> Some e
      | None \<Rightarrow> simple_checkAfterList cs h)"

definition simpleIface :: "(Node, Log) ArgIface" where
  "simpleIface =
     \<lparr> arg_name = node_name,
       arg_type = node_type,
       arg_isWithValue = node_withValue,
       arg_process = simple_process,
       arg_findArgument = simple_findArgument,
       cmd_findChild = simple_findChild,
       arg_isMisspelledName = simple_isMisspelledName,
       cmd_isMisspelledCommand = simple_isMisspelledCommand,
       arg_checkCorrectnessBeforeParsing = simple_checkBefore,
       arg_checkCorrectnessAfterParsing = simple_checkAfter,
       isArgument = simple_isArgument,
       isFlag = simple_isFlag \<rparr>"

section \<open>Construction and registration\<close>

text \<open>\<open>makeContext\<close>: the tokens of \<open>argv\<close> without the executable name.\<close>

definition makeContext :: "String list \<Rightarrow> Context" where
  "makeContext argv = drop 1 argv"

text \<open>The constructor, over argument objects in the state \<open>h\<close>.\<close>

definition CmdLine_ctor :: "String list \<Rightarrow> CmdLineOpts \<Rightarrow> 's \<Rightarrow> ('n, 's) CmdLine" where
  "CmdLine_ctor argv opt h =
     \<lparr> m_context = makeContext argv, m_args = [], m_command = None, m_opt = opt, heap = h \<rparr>"

text \<open>\<open>CmdLine::addArg( ArgIface * arg )\<close>; \<open>None\<close> is the null pointer.\<close>

definition addArg ::
  "('n, 's) ArgIface \<Rightarrow> 'n option \<Rightarrow> ('n, 's) CmdLine \<Rightarrow> error + ('n, 's) CmdLine" where
  \<open>addArg iface argp cl =
     (case argp of
        Some arg \<Rightarrow>
          if arg \<notin> set (m_args cl) then Inr (cl\<lparr>m_args := m_args cl @ [arg]\<rparr>)
          else Inl (BaseException (''Argument "'' @ arg_name iface arg @
                 ''" already in the command line parser.''))
      | None \<Rightarrow>
          Inl (BaseException ''Attempt to add nullptr to the command line as argument.''))\<close>

text \<open>
  The engine as the constructor and \<open>addArg\<close> leave it: the tokens after the
  executable name, the nodes in registration order, no active command.
\<close>

definition newCmdLine :: "String list \<Rightarrow> CmdLineOpts \<Rightarrow> 'n list \<Rightarrow> 's \<Rightarrow> ('n, 's) CmdLine" where
  "newCmdLine tokens opt args h =
     \<lparr> m_context = tokens, m_args = args, m_command = None, m_opt = opt, heap = h \<rparr>"

section \<open>Notions used to state the properties\<close>

text \<open>
  The word that iteration \<open>k + 1\<close> of the loop classifies (the token it read, cut at
  its first \<open>=\<close>), with the engine at that moment.
\<close>

definition nextWord ::
  "('n, 's) ArgIface \<Rightarrow> nat \<Rightarrow> ('n, 's) CmdLine \<Rightarrow> (String \<times> ('n, 's) CmdLine) option" where
  "nextWord iface k cl =
     (case afterTokens iface k cl of
        None \<Rightarrow> None
      | Some st \<Rightarrow>
          (case Context_next (m_context st) of
             None \<Rightarrow> None
           | Some (tok, rest) \<Rightarrow>
               (case splitAtEq tok rest of
                  (word, ctx) \<Rightarrow> Some (word, st\<lparr>m_context := ctx\<rparr>))))"

text \<open>Calling \<open>process\<close> on the nodes of a list from left to right, up to the first throw.\<close>

fun processAll ::
  "('n, 's) ArgIface \<Rightarrow> 'n list \<Rightarrow> ('n, 's) CmdLine \<Rightarrow> ('n, 's) result" where
  "processAll iface [] cl = (None, cl)"
| "processAll iface (a # as) cl =
     (case process iface a cl of
        (Some e, cl') \<Rightarrow> (Some e, cl')
      | (None, cl') \<Rightarrow> processAll iface as cl')"


text \<open>The names of a list joined with a separator.\<close>

fun joinWith :: "String \<Rightarrow> StringList \<Rightarrow> String" where
  "joinWith sep [] = []"
| "joinWith sep [x] = x"
| "joinWith sep (x # y # ys) = x @ sep @ joinWith sep (y # ys)"

text \<open>
  The question the misspelling search puts to a top-level node: \<open>isMisspelledCommand\<close>
  to a command that is not the active one, \<open>isMisspelledName\<close> to every other node.
\<close>

definition misspellingQuery ::
  "('n, 's) ArgIface \<Rightarrow> ('n, 's) CmdLine \<Rightarrow> String \<Rightarrow> 'n \<Rightarrow> StringList \<Rightarrow> bool \<times> StringList" where
  "misspellingQuery iface cl name arg possibleNames =
     (if arg_type iface arg = Command \<and> Some arg \<noteq> m_command cl then
        cmd_isMisspelledCommand iface arg name possibleNames
      else arg_isMisspelledName iface arg name possibleNames)"

declare flagsLoop.simps [simp del]

declare parseLoop.simps [code]

section \<open>Engines as construction leaves them\<close>

lemma newCmdLine_ctor: "CmdLine_ctor (prog # tokens) opt h = newCmdLine tokens opt [] h"
  by (simp add: CmdLine_ctor_def newCmdLine_def makeContext_def)

lemma newCmdLine_addArg:
  "arg \<notin> set args \<Longrightarrow>
   addArg iface (Some arg) (newCmdLine tokens opt args h) =
     Inr (newCmdLine tokens opt (args @ [arg]) h)"
  by (simp add: addArg_def newCmdLine_def)

section \<open>The loop, step by step\<close>

lemma parseLoop_step:
  assumes "Context_next (m_context cl) = Some (tok, rest)"
  shows "parseLoop iface cl =
     (case parseToken iface tok (cl\<lparr>m_context := rest\<rparr>) of
        (Some e, cl') \<Rightarrow> Some (Some e, cl')
      | (None, cl') \<Rightarrow> parseLoop iface cl')"
  using assms
  by (subst parseLoop.simps) (auto simp: Context_atEnd_def Context_next_def split: list.splits)

lemma parseLoop_afterTokens:
  "afterTokens iface k cl = Some st \<Longrightarrow> parseLoop iface cl = parseLoop iface st"
proof (induction k arbitrary: cl)
  case 0
  then show ?case by simp
next
  case (Suc k)
  then show ?case
    by (auto simp: parseLoop_step split: option.splits prod.splits)
qed

lemma parseToken_nextWord:
  assumes "nextWord iface k cl = Some (word, st)"
  obtains st0 tok rest where "afterTokens iface k cl = Some st0"
    and "Context_next (m_context st0) = Some (tok, rest)"
    and "parseToken iface tok (st0\<lparr>m_context := rest\<rparr>) = dispatch iface word st"
  using assms
  by (auto simp: nextWord_def parseToken_def split: option.splits prod.splits)

lemma parseLoop_dispatch_fail:
  assumes "nextWord iface k cl = Some (word, st)"
    and "dispatch iface word st = (Some e, st')"
  shows "parseLoop iface cl = Some (Some e, st')"
proof -
  obtain st0 tok rest where a: "afterTokens iface k cl = Some st0"
    and n: "Context_next (m_context st0) = Some (tok, rest)"
    and p: "parseToken iface tok (st0\<lparr>m_context := rest\<rparr>) = dispatch iface word st"
    using assms(1) by (rule parseToken_nextWord)
  have "parseLoop iface cl = parseLoop iface st0"
    using a by (rule parseLoop_afterTokens)
  also have "\<dots> = Some (Some e, st')"
    using n p assms(2) by (simp add: parseLoop_step)
  finally show ?thesis .
qed

lemma parse_dispatch_fail:
  assumes "checkCorrectnessBeforeParsing iface cl = None"
    and "nextWord iface k cl = Some (word, st)"
    and "dispatch iface word st = (Some e, st')"
  shows "parse iface cl = Some (Some e, st')"
  using assms(1) parseLoop_dispatch_fail [OF assms(2,3)]
  by (simp add: parse_def)




lemma process_frame:
  assumes "process iface a cl = (r, cl')"
  shows "m_args cl' = m_args cl \<and> m_command cl' = m_command cl \<and> m_opt cl' = m_opt cl"
  using assms by (auto simp: process_def split: prod.splits)


lemma processAll_append:
  "processAll iface as cl = (None, c1) \<Longrightarrow>
   processAll iface (as @ bs) cl = processAll iface bs c1"
  by (induction as arbitrary: cl) (auto split: prod.splits option.splits)






section \<open>What the loop leaves unchanged\<close>

lemma flagsLoop_step:
  assumes "i < length word" and "findArgument iface cl [CHR ''-'', word ! i] = Some a"
    and "\<not> (i < length word - 1 \<and> arg_isWithValue iface a)"
  shows "flagsLoop iface word i cl =
     (case process iface a cl of
        (Some e, cl') \<Rightarrow> (Some e, cl')
      | (None, cl') \<Rightarrow> flagsLoop iface word (Suc i) cl')"
  using assms by (subst flagsLoop.simps) auto

lemma flagsLoop_frame:
  "flagsLoop iface word i cl = (r, cl') \<Longrightarrow>
   m_args cl' = m_args cl \<and> m_command cl' = m_command cl \<and> m_opt cl' = m_opt cl"
proof (induction iface word i cl rule: flagsLoop.induct)
  case (1 iface word i cl)
  show ?case
  proof (cases "i < length word")
    case False
    with "1.prems" show ?thesis by (subst (asm) flagsLoop.simps) simp
  next
    case True
    show ?thesis
    proof (cases "findArgument iface cl (''-'' @ [word ! i])")
      case None
      with True "1.prems" show ?thesis by (subst (asm) flagsLoop.simps) simp
    next
      case (Some a)
      show ?thesis
      proof (cases "i < length word - 1 \<and> arg_isWithValue iface a")
        case wv: True
        with True Some "1.prems" show ?thesis
          by (subst (asm) flagsLoop.simps) simp
      next
        case nv: False
        obtain r1 c1 where p: "process iface a cl = (r1, c1)" by (cases "process iface a cl")
        have fa: "findArgument iface cl [CHR ''-'', word ! i] = Some a"
          using Some by simp
        have step: "flagsLoop iface word i cl =
            (case r1 of Some e \<Rightarrow> (Some e, c1) | None \<Rightarrow> flagsLoop iface word (Suc i) c1)"
          using flagsLoop_step [OF True fa nv] p
          by (simp split: option.splits)
        show ?thesis
        proof (cases r1)
          case None
          have "flagsLoop iface word (Suc i) c1 = (r, cl')"
            using "1.prems" step None by simp
          from "1.IH" [OF True refl \<open>findArgument iface cl (''-'' @ [word ! i]) = Some a\<close> nv p [symmetric] None this] process_frame [OF p]
          show ?thesis by simp
        next
          case (Some e)
          have "cl' = c1"
            using "1.prems" step Some by simp
          with process_frame [OF p] show ?thesis by simp
        qed
      qed
    qed
  qed
qed

lemma dispatch_frame:
  assumes "dispatch iface word cl = (r, cl')"
  shows "m_args cl' = m_args cl \<and> m_opt cl' = m_opt cl \<and>
         (\<forall>c. m_command cl = Some c \<longrightarrow> m_command cl' = Some c)"
proof -
  have p: "\<And>a c r' c'. process iface a c = (r', c') \<Longrightarrow>
      m_args c' = m_args c \<and> m_command c' = m_command c \<and> m_opt c' = m_opt c"
    by (rule process_frame)
  show ?thesis
    using assms
    by (auto simp: dispatch_def split: if_splits option.splits dest: p flagsLoop_frame)
qed

lemma parseToken_frame:
  assumes "parseToken iface tok cl = (r, cl')"
  shows "m_args cl' = m_args cl \<and> m_opt cl' = m_opt cl \<and>
         (\<forall>c. m_command cl = Some c \<longrightarrow> m_command cl' = Some c)"
  using assms dispatch_frame [of iface _ "cl\<lparr>m_context := _\<rparr>" r cl']
  by (auto simp: parseToken_def split: prod.splits)

lemma parseLoop_frame:
  assumes "parseLoop iface cl = Some res"
  shows "m_args (snd res) = m_args cl \<and> m_opt (snd res) = m_opt cl \<and>
         (\<forall>c. m_command cl = Some c \<longrightarrow> m_command (snd res) = Some c)"
proof (rule parseLoop.raw_induct
    [where P = "\<lambda>iface cl res. m_args (snd res) = m_args cl \<and> m_opt (snd res) = m_opt cl \<and>
         (\<forall>c. m_command cl = Some c \<longrightarrow> m_command (snd res) = Some c)", OF _ assms])
  fix parseLoop' :: "('a, 'b) ArgIface \<Rightarrow> ('a, 'b) CmdLine \<Rightarrow> ('a, 'b) result option"
  fix iface cl res
  assume IH: "\<And>iface cl res. parseLoop' iface cl = Some res \<Longrightarrow>
      m_args (snd res) = m_args cl \<and> m_opt (snd res) = m_opt cl \<and>
         (\<forall>c. m_command cl = Some c \<longrightarrow> m_command (snd res) = Some c)"
  assume eq: "(if Context_atEnd (m_context cl) then Some (None, cl)
      else case Context_next (m_context cl) of None \<Rightarrow> None
           | Some (word, ctx) \<Rightarrow>
               case parseToken iface word (cl\<lparr>m_context := ctx\<rparr>) of
               (None, cl') \<Rightarrow> parseLoop' iface cl'
               | (Some e, cl') \<Rightarrow> Some (Some e, cl')) = Some res"
  show "m_args (snd res) = m_args cl \<and> m_opt (snd res) = m_opt cl \<and>
         (\<forall>c. m_command cl = Some c \<longrightarrow> m_command (snd res) = Some c)"
  proof (cases "Context_atEnd (m_context cl)")
    case True
    with eq show ?thesis by auto
  next
    case False
    with eq obtain tok rest where
      n: "Context_next (m_context cl) = Some (tok, rest)"
      by (auto split: option.splits)
    obtain r1 c1 where p: "parseToken iface tok (cl\<lparr>m_context := rest\<rparr>) = (r1, c1)"
      by (cases "parseToken iface tok (cl\<lparr>m_context := rest\<rparr>)")
    note fr = parseToken_frame [OF p]
    show ?thesis
    proof (cases r1)
      case None
      with eq False n p have "parseLoop' iface c1 = Some res" by simp
      from IH [OF this] fr show ?thesis by simp
    next
      case (Some e)
      with eq False n p have "res = (Some e, c1)" by simp
      with fr show ?thesis by simp
    qed
  qed
qed

lemma afterTokens_frame:
  "afterTokens iface k cl = Some st \<Longrightarrow>
   m_args st = m_args cl \<and> m_opt st = m_opt cl \<and>
   (\<forall>c. m_command cl = Some c \<longrightarrow> m_command st = Some c)"
proof (induction k arbitrary: cl)
  case 0
  then show ?case by simp
next
  case (Suc k)
  from Suc.prems obtain t r c1 where
    n: "Context_next (m_context cl) = Some (t, r)"
    and p: "parseToken iface t (cl\<lparr>m_context := r\<rparr>) = (None, c1)"
    and a: "afterTokens iface k c1 = Some st"
    by (auto split: option.splits prod.splits)
  from Suc.IH [OF a] parseToken_frame [OF p] show ?case by simp
qed

section \<open>Unknown words and the misspelling search\<close>

lemma dispatch_unknown:
  assumes "isArgument iface word \<or> \<not> isFlag iface word"
    and "findArgument iface st word = None"
  shows "dispatch iface word st = (printInfoAboutUnknownArgument iface st word, st)"
  using assms by (auto simp: dispatch_def)

lemma joinWith_Cons: "joinWith sep (x # xs) = x @ concat (map (\<lambda>n. sep @ n) xs)"
  by (induction xs arbitrary: x) simp_all

lemma formatLoop_rest:
  "formatLoop names False res = res @ concat (map (\<lambda>n. '' or '' @ n) names)"
  by (induction names arbitrary: res) simp_all

lemma formatCorrectNamesString_join:
  "formatCorrectNamesString names = joinWith '' or '' names"
proof (cases names)
  case Nil
  then show ?thesis by (simp add: formatCorrectNamesString_def)
next
  case (Cons x xs)
  then show ?thesis
    by (simp add: formatCorrectNamesString_def formatLoop_rest joinWith_Cons)
qed

lemma isMisspelledName_visit_query:
  "isMisspelledName_visit iface cl name arg (ret, names) =
     (case misspellingQuery iface cl name arg names of
        (b, names') \<Rightarrow> (if b then True else ret, names'))"
  by (auto simp: isMisspelledName_visit_def misspellingQuery_def)

lemma isMisspelledName_fold:
  assumes "\<forall>arg\<in>set args. \<forall>names.
      misspellingQuery iface cl name arg names = (ms arg \<noteq> [], names @ ms arg)"
  shows "fold (isMisspelledName_visit iface cl name) args (ret, names) =
     (ret \<or> concat (map ms args) \<noteq> [], names @ concat (map ms args))"
  using assms
proof (induction args arbitrary: ret names)
  case Nil
  then show ?case by simp
next
  case (Cons a args)
  have q: "misspellingQuery iface cl name a names = (ms a \<noteq> [], names @ ms a)"
    using Cons.prems by simp
  have v: "isMisspelledName_visit iface cl name a (ret, names) =
      (ret \<or> ms a \<noteq> [], names @ ms a)"
    by (simp add: isMisspelledName_visit_query q)
  have rest: "\<forall>arg\<in>set args. \<forall>names.
      misspellingQuery iface cl name arg names = (ms arg \<noteq> [], names @ ms arg)"
    using Cons.prems by simp
  show ?case
    using Cons.IH [OF rest, of "ret \<or> ms a \<noteq> []" "names @ ms a"] v by auto
qed

lemma isMisspelledName_collects:
  assumes "\<forall>arg\<in>set (m_args cl). \<forall>names.
      misspellingQuery iface cl name arg names = (ms arg \<noteq> [], names @ ms arg)"
  shows "isMisspelledName iface cl name [] =
     (concat (map ms (m_args cl)) \<noteq> [], concat (map ms (m_args cl)))"
  using isMisspelledName_fold [OF assms, of False "[]"] by (simp add: isMisspelledName_def)

lemma printInfoAboutUnknownArgument_throws:
  "printInfoAboutUnknownArgument iface cl word \<noteq> None"
  by (simp add: printInfoAboutUnknownArgument_def split: prod.splits)

section \<open>Flags combos\<close>






section \<open>Suggestions for an unknown word\<close>

text \<open>
  Claim C2, as the code has it. Let the word of a token, outside a flags combo (in
  argument form, or in neither argument nor flag form), resolve to no node, and let
  every top-level node answer the question the search puts to it by appending its
  matches \<open>ms\<close> and reporting whether there are any (the names it finds within the
  threshold: a command that is not the active one is asked by \<open>isMisspelledCommand\<close>,
  every other node by \<open>isMisspelledName\<close>). Whenever one of these nodes has a match,
  \<open>parse\<close> fails with the unknown-argument error that carries the suggestions, the
  matches of all top-level nodes in registration order, that match among them.
\<close>

theorem C2_unknown_word_suggestions:
  assumes pre: "checkCorrectnessBeforeParsing iface cl = None"
    and nw: "nextWord iface k cl = Some (word, st)"
    and form: "isArgument iface word \<or> \<not> isFlag iface word"
    and unres: "findArgument iface st word = None"
    and contract: "\<forall>arg\<in>set (m_args st). \<forall>names.
         misspellingQuery iface st word arg names = (ms arg \<noteq> [], names @ ms arg)"
    and hit: "arg \<in> set (m_args st)" "name \<in> set (ms arg)"
  shows \<open>parse iface cl =
     Some (Some (BaseException (''Unknown argument "'' @ word @
       ''".\<newline>\<newline>Probably you mean "'' @
       formatCorrectNamesString (concat (map ms (m_args st))) @ ''".'')), st) \<and>
     name \<in> set (concat (map ms (m_args st)))\<close>
proof -
  have among: "name \<in> set (concat (map ms (m_args st)))"
    using hit by auto
  then have some: "concat (map ms (m_args st)) \<noteq> []"
    by (cases "concat (map ms (m_args st))") simp_all
  define s where "s = concat (map ms (m_args st))"
  have m: "isMisspelledName iface st word [] = (s \<noteq> [], s)"
    unfolding s_def using contract by (rule isMisspelledName_collects)
  have "s \<noteq> []" using some by (simp add: s_def)
  then have \<open>printInfoAboutUnknownArgument iface st word =
      Some (BaseException (''Unknown argument "'' @ word @
       ''".\<newline>\<newline>Probably you mean "'' @ formatCorrectNamesString s @ ''".''))\<close>
    by (simp add: printInfoAboutUnknownArgument_def m)
  then have \<open>dispatch iface word st =
     (Some (BaseException (''Unknown argument "'' @ word @
       ''".\<newline>\<newline>Probably you mean "'' @ formatCorrectNamesString s @ ''".'')), st)\<close>
    using dispatch_unknown [OF form unres] by simp
  with pre nw have \<open>parse iface cl =
     Some (Some (BaseException (''Unknown argument "'' @ word @
       ''".\<newline>\<newline>Probably you mean "'' @ formatCorrectNamesString s @ ''".'')), st)\<close>
    by (rule parse_dispatch_fail)
  with among show ?thesis unfolding s_def by simp
qed

text \<open>
  The claim as stated fails in two ways. For a flag inside a combo: with the flag
  \<open>-v\<close> registered and the token \<open>-vw\<close>, the name \<open>-v\<close> is within the threshold
  of the unresolved flag \<open>-w\<close> and the search would find it, and the error thrown
  carries no suggestion. For a registered name that the search does not consult: with
  the command \<open>push\<close>, not active, and its child \<open>--dd\<close>, the word \<open>--dx\<close> is
  within the threshold of \<open>--dd\<close>, the command is asked for its own name only, and
  the error thrown carries no suggestion.
\<close>

theorem C2_suggestions_missing:
  \<open>withinThreshold ''-w'' ''-v'' \<and>
   isMisspelledName simpleIface
      (newCmdLine [] Empty [Node Flag ''-v'' False False []] [(''-v'', None)]) ''-w'' [] =
     (True, [''-v'']) \<and>
   parse simpleIface (newCmdLine [''-vw''] Empty [Node Flag ''-v'' False False []] []) =
     Some (Some (BaseException ''Unknown argument "-w".''),
           newCmdLine [] Empty [Node Flag ''-v'' False False []] [(''-v'', None)]) \<and>
   withinThreshold ''--dx'' ''--dd'' \<and>
   parse simpleIface
     (newCmdLine [''--dx''] Empty
        [Node Command ''push'' False False [Node Named ''--dd'' False False []]] []) =
     Some (Some (BaseException ''Unknown argument "--dx".''),
           newCmdLine [] Empty
             [Node Command ''push'' False False [Node Named ''--dd'' False False []]] [])\<close>
  by code_simp

theorem C2_unknown_word_suggestions_witness:
  \<open>parse simpleIface
     (newCmdLine [''--ot=x''] Empty
        [Node Flag ''-v'' False False [], Node Named ''--out'' True False [],
         Node Named ''--opt'' False False []] []) =
   Some (Some (BaseException
           ''Unknown argument "--ot".\<newline>\<newline>Probably you mean "--out or --opt".''),
         newCmdLine [''x''] Empty
           [Node Flag ''-v'' False False [], Node Named ''--out'' True False [],
            Node Named ''--opt'' False False []] [])\<close>
proof -
  let ?v = "Node Flag ''-v'' False False []"
  let ?o = "Node Named ''--out'' True False []"
  let ?p = "Node Named ''--opt'' False False []"
  let ?cl = "newCmdLine [''--ot=x''] Empty [?v, ?o, ?p] [] :: (Node, Log) CmdLine"
  let ?st = "newCmdLine [''x''] Empty [?v, ?o, ?p] [] :: (Node, Log) CmdLine"
  let ?ms = "\<lambda>n. if n = ?o then [''--out''] else if n = ?p then [''--opt''] else []"
  have pre: "checkCorrectnessBeforeParsing simpleIface ?cl = None"
    by code_simp
  have nw: "nextWord simpleIface 0 ?cl = Some (''--ot'', ?st)"
    by code_simp
  have form: "isArgument simpleIface ''--ot'' \<or> \<not> isFlag simpleIface ''--ot''"
    by code_simp
  have unres: "findArgument simpleIface ?st ''--ot'' = None"
    by code_simp
  have near: "withinThreshold ''--ot'' ''--out''" "withinThreshold ''--ot'' ''--opt''"
    by code_simp+
  have far: "\<not> withinThreshold ''--ot'' ''-v''"
    by code_simp
  have contract: "\<forall>arg\<in>set (m_args ?st). \<forall>names.
      misspellingQuery simpleIface ?st ''--ot'' arg names = (?ms arg \<noteq> [], names @ ?ms arg)"
    using near far by (simp add: newCmdLine_def misspellingQuery_def simpleIface_def)
  have hit1: "?o \<in> set (m_args ?st)" by (simp add: newCmdLine_def)
  have hit2: "''--out'' \<in> set (?ms ?o)" by simp
  have sugg: "concat (map ?ms (m_args ?st)) = [''--out'', ''--opt'']"
    by (simp add: newCmdLine_def)
  have fmt: "formatCorrectNamesString [''--out'', ''--opt''] = ''--out or --opt''"
    by code_simp
  have msg: \<open>''Unknown argument "'' @ ''--ot'' @ ''".\<newline>\<newline>Probably you mean "'' @
      formatCorrectNamesString (concat (map ?ms (m_args ?st))) @ ''".'' =
      ''Unknown argument "--ot".\<newline>\<newline>Probably you mean "--out or --opt".''\<close>
    unfolding sugg fmt by simp
  show ?thesis
    using C2_unknown_word_suggestions [where ms = ?ms and arg = ?o and name = "''--out''",
        OF pre nw form unres contract hit1 hit2, THEN conjunct1]
    unfolding msg .
qed

section \<open>Value-bearing flags in a combo\<close>








section \<open>Words with a value after \<open>=\<close>\<close>

lemma find_char_None: "CHR ''='' \<notin> set name \<Longrightarrow> find_char (CHR ''='') name = None"
  by (induction name) auto

lemma find_char_first:
  "CHR ''='' \<notin> set name \<Longrightarrow> find_char (CHR ''='') (name @ CHR ''='' # val) = Some (length name)"
  by (induction name) auto

lemma splitAtEq_plain: "CHR ''='' \<notin> set name \<Longrightarrow> splitAtEq name ctx = (name, ctx)"
  by (simp add: splitAtEq_def find_char_None)

lemma splitAtEq_value:
  "CHR ''='' \<notin> set name \<Longrightarrow> val \<noteq> [] \<Longrightarrow>
   splitAtEq (name @ CHR ''='' # val) ctx = (name, val # ctx)"
  by (simp add: splitAtEq_def find_char_first Context_prepend_def)

lemma splitAtEq_empty_value:
  "CHR ''='' \<notin> set name \<Longrightarrow> splitAtEq (name @ ''='') ctx = (name, ctx)"
  by (simp add: splitAtEq_def find_char_first)

lemma parseLoop_name_value:
  assumes "CHR ''='' \<notin> set name" and "val \<noteq> []"
  shows "parseLoop iface (st\<lparr>m_context := (name @ CHR ''='' # val) # rest\<rparr>) =
         parseLoop iface (st\<lparr>m_context := name # val # rest\<rparr>)"
proof -
  have n1: "Context_next (m_context (st\<lparr>m_context := (name @ CHR ''='' # val) # rest\<rparr>)) =
      Some (name @ CHR ''='' # val, rest)"
    by (simp add: Context_next_def)
  have n2: "Context_next (m_context (st\<lparr>m_context := name # val # rest\<rparr>)) =
      Some (name, val # rest)"
    by (simp add: Context_next_def)
  have "parseToken iface (name @ CHR ''='' # val)
          (st\<lparr>m_context := (name @ CHR ''='' # val) # rest, m_context := rest\<rparr>) =
        parseToken iface name (st\<lparr>m_context := name # val # rest, m_context := val # rest\<rparr>)"
    using assms by (simp add: parseToken_def splitAtEq_plain splitAtEq_value)
  then show ?thesis
    by (simp only: parseLoop_step [OF n1] parseLoop_step [OF n2])
qed

lemma checkCorrectnessBeforeParsing_args:
  "m_args cl' = m_args cl \<Longrightarrow>
   checkCorrectnessBeforeParsing iface cl' = checkCorrectnessBeforeParsing iface cl"
  by (simp add: checkCorrectnessBeforeParsing_def)

text \<open>
  Claim C4, as the code has it. Let a token \<open>name=value\<close> (no \<open>=\<close> in the name, the
  value not empty) be one that the loop itself reads, after \<open>k\<close> iterations, and let
  the run on the token list with \<open>name\<close> and \<open>value\<close> in its place reach the same
  engine at that point. Then the two runs of \<open>parse\<close> end alike: both return or
  neither, with the same error if any, the same argument states and the same active
  command. A token that an earlier node consumes as its value is not one the loop reads.
\<close>

theorem C4_name_value_as_two_tokens:
  assumes name: "CHR ''='' \<notin> set name" and val: "val \<noteq> []"
    and r1: "afterTokens iface k cl = Some (st\<lparr>m_context := (name @ CHR ''='' # val) # rest\<rparr>)"
    and r2: "afterTokens iface k (cl\<lparr>m_context := tokens2\<rparr>) =
               Some (st\<lparr>m_context := name # val # rest\<rparr>)"
  shows "map_option (\<lambda>r. (fst r, heap (snd r), m_command (snd r))) (parse iface cl) =
         map_option (\<lambda>r. (fst r, heap (snd r), m_command (snd r)))
           (parse iface (cl\<lparr>m_context := tokens2\<rparr>))"
proof -
  have "parseLoop iface cl = parseLoop iface (st\<lparr>m_context := (name @ CHR ''='' # val) # rest\<rparr>)"
    using r1 by (rule parseLoop_afterTokens)
  also have "\<dots> = parseLoop iface (st\<lparr>m_context := name # val # rest\<rparr>)"
    using name val by (rule parseLoop_name_value)
  also have "\<dots> = parseLoop iface (cl\<lparr>m_context := tokens2\<rparr>)"
    using r2 by (rule parseLoop_afterTokens [symmetric])
  finally have loop: "parseLoop iface cl = parseLoop iface (cl\<lparr>m_context := tokens2\<rparr>)" .
  have chk: "checkCorrectnessBeforeParsing iface (cl\<lparr>m_context := tokens2\<rparr>) =
             checkCorrectnessBeforeParsing iface cl"
    by (rule checkCorrectnessBeforeParsing_args) simp
  show ?thesis
    unfolding parse_def chk loop
    by (cases "checkCorrectnessBeforeParsing iface cl") simp_all
qed

text \<open>
  The claim as stated (every token of the form \<open>name=value\<close>) fails for a token that
  a value-bearing node consumes: after \<open>--out\<close> the token \<open>k=v\<close> is its value and
  \<open>parse\<close> returns, while with \<open>k\<close> and \<open>v\<close> in its place the value is \<open>k\<close> and
  \<open>v\<close> is an unknown word.
\<close>

theorem C4_value_token_not_split:
  \<open>parse simpleIface
     (newCmdLine [''--out'', ''k=v''] Empty [Node Named ''--out'' True False []] []) =
   Some (None, newCmdLine [] Empty [Node Named ''--out'' True False []]
                 [(''--out'', Some ''k=v'')]) \<and>
   parse simpleIface
     (newCmdLine [''--out'', ''k'', ''v''] Empty [Node Named ''--out'' True False []] []) =
   Some (Some (BaseException ''Unknown argument "v".''),
         newCmdLine [] Empty [Node Named ''--out'' True False []] [(''--out'', Some ''k'')])\<close>
  by code_simp

theorem C4_name_value_as_two_tokens_witness:
  \<open>map_option (\<lambda>r. (fst r, heap (snd r), m_command (snd r)))
     (parse simpleIface
        (newCmdLine [''-v'', ''--out=a=b''] Empty
           [Node Flag ''-v'' False False [], Node Named ''--out'' True False []] [])) =
   map_option (\<lambda>r. (fst r, heap (snd r), m_command (snd r)))
     (parse simpleIface
        (newCmdLine [''-v'', ''--out'', ''a=b''] Empty
           [Node Flag ''-v'' False False [], Node Named ''--out'' True False []] []))\<close>
proof -
  let ?v = "Node Flag ''-v'' False False []"
  let ?o = "Node Named ''--out'' True False []"
  let ?cl = "newCmdLine [''-v'', ''--out=a=b''] Empty [?v, ?o] []"
  let ?st = "newCmdLine [] Empty [?v, ?o] [(''-v'', None)]"
  have name: "CHR ''='' \<notin> set ''--out''" by simp
  have val: "''a=b'' \<noteq> []" by simp
  have r1: "afterTokens simpleIface (Suc 0) ?cl =
      Some (?st\<lparr>m_context := (''--out'' @ CHR ''='' # ''a=b'') # []\<rparr>)"
    by code_simp
  have r2: "afterTokens simpleIface (Suc 0) (?cl\<lparr>m_context := [''-v'', ''--out'', ''a=b'']\<rparr>) =
      Some (?st\<lparr>m_context := ''--out'' # ''a=b'' # []\<rparr>)"
    by code_simp
  have eq: "?cl\<lparr>m_context := [''-v'', ''--out'', ''a=b'']\<rparr> =
      newCmdLine [''-v'', ''--out'', ''a=b''] Empty [?v, ?o] []"
    by (simp add: newCmdLine_def)
  show ?thesis
    using C4_name_value_as_two_tokens [OF name val r1 r2] unfolding eq .
qed

section \<open>Validation before parsing\<close>







section \<open>Commands\<close>

lemma dispatch_second_command:
  assumes "\<not> isArgument iface word" and "\<not> isFlag iface word"
    and "findArgument iface st word = Some tmp" and "arg_type iface tmp = Command"
    and "m_command st = Some cmd"
  shows \<open>dispatch iface word st =
     (Some (BaseException (''Only one command can be specified. But you entered "'' @
        arg_name iface cmd @ ''" and "'' @ arg_name iface tmp @ ''".'')), st)\<close>
  using assms by (simp add: dispatch_def)

lemma parse_keeps_command:
  assumes pre: "checkCorrectnessBeforeParsing iface cl = None"
    and reach: "afterTokens iface j cl = Some s"
    and act: "m_command s = Some c"
    and res: "parse iface cl = Some (r, cl')"
  shows "m_command cl' = Some c"
proof -
  have "parseLoop iface cl = parseLoop iface s"
    using reach by (rule parseLoop_afterTokens)
  moreover obtain r0 where "parseLoop iface cl = Some (r0, cl')"
    using pre res by (auto simp: parse_def split: option.splits prod.splits)
  ultimately have "parseLoop iface s = Some (r0, cl')" by simp
  from parseLoop_frame [OF this] act show ?thesis by simp
qed

text \<open>
  Claim C6, as the code has it. When the word of a token is in command form (neither
  argument nor flag form) and resolves to a node of type \<open>Command\<close> while a
  command is active, \<open>parse\<close> fails with the error whose message names the active
  command and the new one. The active command, once set, stays the same to the end of
  \<open>parse\<close>: the engine never holds more than the one command that was activated
  first.
\<close>

theorem C6_second_command:
  assumes pre: "checkCorrectnessBeforeParsing iface cl = None"
  shows \<open>(\<forall>k word st tmp cmd.
        nextWord iface k cl = Some (word, st) \<and>
        \<not> isArgument iface word \<and> \<not> isFlag iface word \<and>
        findArgument iface st word = Some tmp \<and> arg_type iface tmp = Command \<and>
        m_command st = Some cmd \<longrightarrow>
        parse iface cl =
          Some (Some (BaseException (''Only one command can be specified. But you entered "'' @
             arg_name iface cmd @ ''" and "'' @ arg_name iface tmp @ ''".'')), st)) \<and>
     (\<forall>j s c r cl'.
        afterTokens iface j cl = Some s \<and> m_command s = Some c \<and>
        parse iface cl = Some (r, cl') \<longrightarrow> m_command cl' = Some c)\<close>
proof (intro conjI allI impI)
  fix k word st tmp cmd
  assume h: "nextWord iface k cl = Some (word, st) \<and>
        \<not> isArgument iface word \<and> \<not> isFlag iface word \<and>
        findArgument iface st word = Some tmp \<and> arg_type iface tmp = Command \<and>
        m_command st = Some cmd"
  then have nw: "nextWord iface k cl = Some (word, st)" by simp
  have \<open>dispatch iface word st =
     (Some (BaseException (''Only one command can be specified. But you entered "'' @
        arg_name iface cmd @ ''" and "'' @ arg_name iface tmp @ ''".'')), st)\<close>
    using h by (intro dispatch_second_command) simp_all
  with pre nw show \<open>parse iface cl =
          Some (Some (BaseException (''Only one command can be specified. But you entered "'' @
             arg_name iface cmd @ ''" and "'' @ arg_name iface tmp @ ''".'')), st)\<close>
    by (rule parse_dispatch_fail)
next
  fix j s c r cl'
  assume "afterTokens iface j cl = Some s \<and> m_command s = Some c \<and>
        parse iface cl = Some (r, cl')"
  then show "m_command cl' = Some c"
    using parse_keeps_command [OF pre] by blast
qed

text \<open>
  The claim as stated (any token that resolves to a command) fails for a word in
  argument form: there the resolved node is processed without a look at its type or
  at the active command. With the commands \<open>pull\<close> and \<open>push\<close>, the latter
  with the child \<open>--force\<close>, the tokens \<open>pull\<close> and \<open>--force\<close> make
  \<open>pull\<close> the active command, resolve \<open>--force\<close> to the command \<open>push\<close>
  and process it: \<open>parse\<close> succeeds with both commands invoked.
\<close>

theorem C6_command_by_argument_word:
  \<open>findArgument simpleIface
     \<lparr> m_context = [],
       m_args = [Node Command ''pull'' False False [],
                 Node Command ''push'' False False [Node Named ''--force'' False False []]],
       m_command = Some (Node Command ''pull'' False False []),
       m_opt = Empty,
       heap = [(''pull'', None)] \<rparr> ''--force'' =
     Some (Node Command ''push'' False False [Node Named ''--force'' False False []]) \<and>
   parse simpleIface
     (newCmdLine [''pull'', ''--force''] Empty
        [Node Command ''pull'' False False [],
         Node Command ''push'' False False [Node Named ''--force'' False False []]] []) =
     Some (None,
           \<lparr> m_context = [],
             m_args = [Node Command ''pull'' False False [],
                       Node Command ''push'' False False [Node Named ''--force'' False False []]],
             m_command = Some (Node Command ''pull'' False False []),
             m_opt = Empty,
             heap = [(''pull'', None), (''push'', None)] \<rparr>)\<close>
  by code_simp

theorem C6_second_command_witness:
  \<open>parse simpleIface
     (newCmdLine [''build'', ''test''] Empty
        [Node Command ''build'' False False [], Node Command ''test'' False False []] []) =
   Some (Some (BaseException
           ''Only one command can be specified. But you entered "build" and "test".''),
         \<lparr> m_context = [],
           m_args = [Node Command ''build'' False False [], Node Command ''test'' False False []],
           m_command = Some (Node Command ''build'' False False []),
           m_opt = Empty,
           heap = [(''build'', None)] \<rparr>) \<and>
   m_command
     (snd (the (parse simpleIface
        (newCmdLine [''build'', ''-a''] Empty
           [Node Command ''build'' False False [], Node Flag ''-a'' False False []] [])))) =
   Some (Node Command ''build'' False False [])\<close>
proof -
  let ?b = "Node Command ''build'' False False []"
  let ?t = "Node Command ''test'' False False []"
  let ?a = "Node Flag ''-a'' False False []"
  let ?cl = "newCmdLine [''build'', ''test''] Empty [?b, ?t] [] :: (Node, Log) CmdLine"
  let ?st = "\<lparr> m_context = [], m_args = [?b, ?t], m_command = Some ?b, m_opt = Empty,
              heap = [(''build'', None)] \<rparr> :: (Node, Log) CmdLine"
  let ?cl2 = "newCmdLine [''build'', ''-a''] Empty [?b, ?a] [] :: (Node, Log) CmdLine"
  let ?s2 = "\<lparr> m_context = [''-a''], m_args = [?b, ?a], m_command = Some ?b, m_opt = Empty,
              heap = [(''build'', None)] \<rparr> :: (Node, Log) CmdLine"
  let ?e2 = "\<lparr> m_context = [], m_args = [?b, ?a], m_command = Some ?b, m_opt = Empty,
              heap = [(''build'', None), (''-a'', None)] \<rparr> :: (Node, Log) CmdLine"
  have pre: "checkCorrectnessBeforeParsing simpleIface ?cl = None"
    by code_simp
  have nw: "nextWord simpleIface (Suc 0) ?cl = Some (''test'', ?st)"
    by code_simp
  have f1: "\<not> isArgument simpleIface ''test''" by code_simp
  have f2: "\<not> isFlag simpleIface ''test''" by code_simp
  have fa: "findArgument simpleIface ?st ''test'' = Some ?t" by code_simp
  have ty: "arg_type simpleIface ?t = Command" by code_simp
  have act: "m_command ?st = Some ?b" by simp
  have nm: "arg_name simpleIface ?b = ''build''" "arg_name simpleIface ?t = ''test''"
    by code_simp+
  have \<open>parse simpleIface ?cl =
     Some (Some (BaseException (''Only one command can be specified. But you entered "'' @
             arg_name simpleIface ?b @ ''" and "'' @ arg_name simpleIface ?t @ ''".'')), ?st)\<close>
    using C6_second_command [OF pre, THEN conjunct1] nw f1 f2 fa ty act by blast
  then have p1: \<open>parse simpleIface ?cl =
     Some (Some (BaseException
           ''Only one command can be specified. But you entered "build" and "test".''), ?st)\<close>
    unfolding nm by simp
  have pre2: "checkCorrectnessBeforeParsing simpleIface ?cl2 = None"
    by code_simp
  have r2: "afterTokens simpleIface (Suc 0) ?cl2 = Some ?s2"
    by code_simp
  have act2: "m_command ?s2 = Some ?b" by simp
  have res2: "parse simpleIface ?cl2 = Some (None, ?e2)"
    by code_simp
  have "m_command ?e2 = Some ?b"
    using C6_second_command [OF pre2, THEN conjunct2] r2 act2 res2 by blast
  then have p2: "m_command (snd (the (parse simpleIface ?cl2))) = Some ?b"
    unfolding res2 by simp
  from p1 p2 show ?thesis by blast
qed

section \<open>Validation after parsing\<close>

lemma checkArgsAfter_None:
  "checkArgsAfter iface args h = None \<longleftrightarrow>
   (\<forall>a\<in>set args. arg_checkCorrectnessAfterParsing iface a h = None)"
  by (induction args) (auto split: option.splits)

lemma checkArgsAfter_first:
  assumes "\<forall>b\<in>set before. arg_checkCorrectnessAfterParsing iface b h = None"
    and "arg_checkCorrectnessAfterParsing iface a h = Some e"
  shows "checkArgsAfter iface (before @ a # after) h = Some e"
  using assms by (induction before) auto

text \<open>
  Claim C7, as the code has it. When the validation before parsing passes and the
  token loop ends without an error, \<open>parse\<close> returns what the validation after
  parsing finds on the engine the loop leaves. That validation asks the registered
  top-level nodes in registration order, up to the first one that throws, whose error
  is the failure of \<open>parse\<close>. When the engine was constructed with
  \<open>CommandIsRequired\<close> and no command is active, \<open>parse\<close> fails, and when
  every node has passed it fails with the missing-command error; when every node
  passes and a command is active or none is required, \<open>parse\<close> succeeds.
\<close>

theorem C7_validation_after_parsing:
  assumes pre: "checkCorrectnessBeforeParsing iface cl = None"
    and loop: "parseLoop iface cl = Some (None, cl')"
  shows "parse iface cl = Some (checkCorrectnessAfterParsing iface cl', cl') \<and>
     (\<forall>before a after e.
        m_args cl = before @ a # after \<and>
        (\<forall>b\<in>set before. arg_checkCorrectnessAfterParsing iface b (heap cl') = None) \<and>
        arg_checkCorrectnessAfterParsing iface a (heap cl') = Some e \<longrightarrow>
        parse iface cl = Some (Some e, cl')) \<and>
     (m_opt cl = CommandIsRequired \<and> m_command cl' = None \<longrightarrow>
        (\<exists>e. parse iface cl = Some (Some e, cl'))) \<and>
     ((\<forall>a\<in>set (m_args cl). arg_checkCorrectnessAfterParsing iface a (heap cl') = None) \<longrightarrow>
        parse iface cl =
          Some (if m_opt cl = CommandIsRequired \<and> m_command cl' = None
                then Some (BaseException ''Not specified command.'') else None, cl'))"
proof -
  have fr: "m_args cl' = m_args cl" "m_opt cl' = m_opt cl"
    using parseLoop_frame [OF loop] by simp_all
  have p: "parse iface cl = Some (checkCorrectnessAfterParsing iface cl', cl')"
    using pre loop by (simp add: parse_def)
  have a: "parse iface cl = Some (Some e, cl')"
    if "m_args cl = before @ a # after"
      and "\<forall>b\<in>set before. arg_checkCorrectnessAfterParsing iface b (heap cl') = None"
      and "arg_checkCorrectnessAfterParsing iface a (heap cl') = Some e"
    for before a after e
    using p fr checkArgsAfter_first [OF that(2,3), of after] that(1)
    by (simp add: checkCorrectnessAfterParsing_def)
  have b: "parse iface cl =
          Some (if m_opt cl = CommandIsRequired \<and> m_command cl' = None
                then Some (BaseException ''Not specified command.'') else None, cl')"
    if "\<forall>a\<in>set (m_args cl). arg_checkCorrectnessAfterParsing iface a (heap cl') = None"
  proof -
    have "checkArgsAfter iface (m_args cl') (heap cl') = None"
      using that fr by (simp add: checkArgsAfter_None)
    then show ?thesis
      using p fr by (simp add: checkCorrectnessAfterParsing_def)
  qed
  have c: "\<exists>e. parse iface cl = Some (Some e, cl')"
    if "m_opt cl = CommandIsRequired \<and> m_command cl' = None"
    using p fr that
    by (cases "checkArgsAfter iface (m_args cl) (heap cl')")
      (simp_all add: checkCorrectnessAfterParsing_def)
  from p a b c show ?thesis by blast
qed

text \<open>
  The claim as stated fails when a node's check throws: under \<open>CommandIsRequired\<close>
  and with no command on the command line, the required \<open>--out\<close> that was not
  given makes \<open>parse\<close> fail with its error, not with the missing-command error, and
  the required \<open>--in\<close> after it is not asked.
\<close>

theorem C7_node_error_first:
  \<open>parse simpleIface
     (newCmdLine [''-a''] CommandIsRequired
        [Node Flag ''-a'' False False [], Node Named ''--out'' True True [],
         Node Named ''--in'' True True []] []) =
   Some (Some (BaseException ''RequiredArgumentMissingError: --out''),
         newCmdLine [] CommandIsRequired
           [Node Flag ''-a'' False False [], Node Named ''--out'' True True [],
            Node Named ''--in'' True True []]
           [(''-a'', None)])\<close>
  by code_simp

theorem C7_validation_after_parsing_witness:
  \<open>parse simpleIface
     (newCmdLine [''-a''] CommandIsRequired
        [Node Flag ''-a'' False False [], Node Command ''build'' False False []] []) =
   Some (Some (BaseException ''Not specified command.''),
         newCmdLine [] CommandIsRequired
           [Node Flag ''-a'' False False [], Node Command ''build'' False False []]
           [(''-a'', None)]) \<and>
   parse simpleIface
     (newCmdLine [''-a''] CommandIsRequired
        [Node Flag ''-a'' False False [], Node Named ''--out'' True True []] []) =
   Some (Some (BaseException ''RequiredArgumentMissingError: --out''),
         newCmdLine [] CommandIsRequired
           [Node Flag ''-a'' False False [], Node Named ''--out'' True True []]
           [(''-a'', None)])\<close>
proof -
  let ?a = "Node Flag ''-a'' False False []"
  let ?b = "Node Command ''build'' False False []"
  let ?o = "Node Named ''--out'' True True []"
  let ?cl = "newCmdLine [''-a''] CommandIsRequired [?a, ?b] [] :: (Node, Log) CmdLine"
  let ?cl' = "newCmdLine [] CommandIsRequired [?a, ?b] [(''-a'', None)] :: (Node, Log) CmdLine"
  let ?dl = "newCmdLine [''-a''] CommandIsRequired [?a, ?o] [] :: (Node, Log) CmdLine"
  let ?dl' = "newCmdLine [] CommandIsRequired [?a, ?o] [(''-a'', None)] :: (Node, Log) CmdLine"
  have pre: "checkCorrectnessBeforeParsing simpleIface ?cl = None"
    by code_simp
  have loop: "parseLoop simpleIface ?cl = Some (None, ?cl')"
    by code_simp
  have ok: "\<forall>a\<in>set (m_args ?cl). arg_checkCorrectnessAfterParsing simpleIface a (heap ?cl') = None"
    by code_simp
  have opt: "m_opt ?cl = CommandIsRequired \<and> m_command ?cl' = None"
    by (simp add: newCmdLine_def)
  have "parse simpleIface ?cl =
      Some (if m_opt ?cl = CommandIsRequired \<and> m_command ?cl' = None
            then Some (BaseException ''Not specified command.'') else None, ?cl')"
    using C7_validation_after_parsing [OF pre loop, THEN conjunct2, THEN conjunct2, THEN conjunct2] ok
    by (rule mp)
  then have p1: "parse simpleIface ?cl = Some (Some (BaseException ''Not specified command.''), ?cl')"
    using opt by simp
  have pre2: "checkCorrectnessBeforeParsing simpleIface ?dl = None"
    by code_simp
  have loop2: "parseLoop simpleIface ?dl = Some (None, ?dl')"
    by code_simp
  have args2: "m_args ?dl = [?a] @ ?o # []"
    by (simp add: newCmdLine_def)
  have before2: "\<forall>b\<in>set [?a]. arg_checkCorrectnessAfterParsing simpleIface b (heap ?dl') = None"
    by code_simp
  have fail2: "arg_checkCorrectnessAfterParsing simpleIface ?o (heap ?dl') =
      Some (BaseException ''RequiredArgumentMissingError: --out'')"
    by code_simp
  have p2: "parse simpleIface ?dl =
      Some (Some (BaseException ''RequiredArgumentMissingError: --out''), ?dl')"
    using C7_validation_after_parsing [OF pre2 loop2, THEN conjunct2, THEN conjunct1]
      args2 before2 fail2 by blast
  from p1 p2 show ?thesis by blast
qed

section \<open>A word that ends at its first \<open>=\<close>\<close>

lemma find_char_Some:
  "find_char c word = Some k \<Longrightarrow> k < length word \<and> word ! k = c \<and> c \<notin> set (take k word)"
proof (induction word arbitrary: k)
  case Nil
  then show ?case by simp
next
  case (Cons x xs)
  show ?case
  proof (cases "x = c")
    case True
    with Cons.prems show ?thesis by simp
  next
    case False
    with Cons.prems obtain k' where k: "k = Suc k'" and f: "find_char c xs = Some k'"
      by auto
    from Cons.IH [OF f] False k show ?thesis by simp
  qed
qed

lemma splitAtEq_truncate:
  assumes "find_char (CHR ''='') tok = Some eqIt" and "drop (eqIt + 1) tok = []"
  shows "splitAtEq tok ctx = (take eqIt tok, ctx)"
  using assms by (simp add: splitAtEq_def)

text \<open>
  Claim C8, as the code has it. Let the loop itself read, after \<open>k\<close> iterations, a
  token whose first \<open>=\<close> is at index \<open>eqIt\<close> with nothing after it. Then the word
  it classifies is the part before the \<open>=\<close>, on the cursor behind the token with
  nothing pushed back, and \<open>parse\<close> is the dispatch of that word followed by the
  rest of the loop and the validation after it: the same as \<open>parse\<close> on a token
  list that brings the loop to the same engine with the truncated word in the token's
  place.
\<close>

theorem C8_empty_value:
  assumes eq: "find_char (CHR ''='') tok = Some eqIt"
    and empty: "drop (eqIt + 1) tok = []"
    and pre: "checkCorrectnessBeforeParsing iface cl = None"
    and reach: "afterTokens iface k cl = Some (st\<lparr>m_context := tok # rest\<rparr>)"
  shows "nextWord iface k cl = Some (take eqIt tok, st\<lparr>m_context := rest\<rparr>) \<and>
     parse iface cl =
       (case dispatch iface (take eqIt tok) (st\<lparr>m_context := rest\<rparr>) of
          (Some e, st') \<Rightarrow> Some (Some e, st')
        | (None, st') \<Rightarrow>
            (case parseLoop iface st' of
               None \<Rightarrow> None
             | Some (Some e, c) \<Rightarrow> Some (Some e, c)
             | Some (None, c) \<Rightarrow> Some (checkCorrectnessAfterParsing iface c, c))) \<and>
     (\<forall>tokens2.
        afterTokens iface k (cl\<lparr>m_context := tokens2\<rparr>) =
          Some (st\<lparr>m_context := take eqIt tok # rest\<rparr>) \<longrightarrow>
        parse iface (cl\<lparr>m_context := tokens2\<rparr>) = parse iface cl)"
proof -
  let ?word = "take eqIt tok"
  let ?st = "st\<lparr>m_context := rest\<rparr>"
  have s: "splitAtEq tok ctx = (?word, ctx)" for ctx
    using eq empty by (rule splitAtEq_truncate)
  have "CHR ''='' \<notin> set ?word"
    using find_char_Some [OF eq] by simp
  then have s': "splitAtEq ?word ctx = (?word, ctx)" for ctx
    by (rule splitAtEq_plain)
  have nw: "nextWord iface k cl = Some (?word, ?st)"
    using reach s by (simp add: nextWord_def Context_next_def)
  have step: "parseLoop iface (st\<lparr>m_context := t # rest\<rparr>) =
      (case parseToken iface t ?st of
         (Some e, st') \<Rightarrow> Some (Some e, st')
       | (None, st') \<Rightarrow> parseLoop iface st')" for t
    using parseLoop_step [of "st\<lparr>m_context := t # rest\<rparr>" t rest iface]
    by (simp add: Context_next_def)
  have pt: "parseToken iface tok ?st = dispatch iface ?word ?st"
    using s by (simp add: parseToken_def)
  have pt': "parseToken iface ?word ?st = dispatch iface ?word ?st"
    using s' by (simp add: parseToken_def)
  have l1: "parseLoop iface cl =
      (case dispatch iface ?word ?st of
         (Some e, st') \<Rightarrow> Some (Some e, st')
       | (None, st') \<Rightarrow> parseLoop iface st')"
    using parseLoop_afterTokens [OF reach] step [of tok] pt by simp
  have p: "parse iface cl =
       (case dispatch iface ?word ?st of
          (Some e, st') \<Rightarrow> Some (Some e, st')
        | (None, st') \<Rightarrow>
            (case parseLoop iface st' of
               None \<Rightarrow> None
             | Some (Some e, c) \<Rightarrow> Some (Some e, c)
             | Some (None, c) \<Rightarrow> Some (checkCorrectnessAfterParsing iface c, c)))"
    using pre l1 by (simp add: parse_def split: prod.splits option.splits)
  have same: "parse iface (cl\<lparr>m_context := tokens2\<rparr>) = parse iface cl"
    if r2: "afterTokens iface k (cl\<lparr>m_context := tokens2\<rparr>) =
          Some (st\<lparr>m_context := ?word # rest\<rparr>)" for tokens2
  proof -
    have "parseLoop iface (cl\<lparr>m_context := tokens2\<rparr>) =
        parseLoop iface (st\<lparr>m_context := ?word # rest\<rparr>)"
      using r2 by (rule parseLoop_afterTokens)
    also have "\<dots> = parseLoop iface cl"
      using step [of ?word] pt' l1 by simp
    finally have loop: "parseLoop iface (cl\<lparr>m_context := tokens2\<rparr>) = parseLoop iface cl" .
    have chk: "checkCorrectnessBeforeParsing iface (cl\<lparr>m_context := tokens2\<rparr>) = None"
      using pre checkCorrectnessBeforeParsing_args [of "cl\<lparr>m_context := tokens2\<rparr>" cl iface]
      by simp
    show ?thesis
      using pre chk loop by (simp add: parse_def)
  qed
  from nw p same show ?thesis by blast
qed

text \<open>
  The claim as stated (every such token) fails for a token that a value-bearing node
  consumes: after \<open>--out\<close> the token \<open>k=\<close> is its value, \<open>=\<close> included, and
  is not truncated.
\<close>

theorem C8_value_token_not_truncated:
  \<open>parse simpleIface
     (newCmdLine [''--out'', ''k=''] Empty [Node Named ''--out'' True False []] []) =
   Some (None, newCmdLine [] Empty [Node Named ''--out'' True False []]
                 [(''--out'', Some ''k='')])\<close>
  by code_simp

theorem C8_empty_value_witness:
  \<open>nextWord simpleIface (Suc 0)
     (newCmdLine [''-v'', ''--name='', ''next''] Empty
        [Node Flag ''-v'' False False [], Node Named ''--name'' True False [],
         Node Named ''next'' False False []] []) =
   Some (''--name'',
         newCmdLine [''next''] Empty
           [Node Flag ''-v'' False False [], Node Named ''--name'' True False [],
            Node Named ''next'' False False []] [(''-v'', None)]) \<and>
   parse simpleIface
     (newCmdLine [''-v'', ''--name='', ''next''] Empty
        [Node Flag ''-v'' False False [], Node Named ''--name'' True False [],
         Node Named ''next'' False False []] []) =
   Some (None,
         newCmdLine [] Empty
           [Node Flag ''-v'' False False [], Node Named ''--name'' True False [],
            Node Named ''next'' False False []]
           [(''-v'', None), (''--name'', Some ''next'')]) \<and>
   parse simpleIface
     (newCmdLine [''-v'', ''--name'', ''next''] Empty
        [Node Flag ''-v'' False False [], Node Named ''--name'' True False [],
         Node Named ''next'' False False []] []) =
   parse simpleIface
     (newCmdLine [''-v'', ''--name='', ''next''] Empty
        [Node Flag ''-v'' False False [], Node Named ''--name'' True False [],
         Node Named ''next'' False False []] [])\<close>
proof -
  let ?v = "Node Flag ''-v'' False False []"
  let ?n = "Node Named ''--name'' True False []"
  let ?x = "Node Named ''next'' False False []"
  let ?cl = "newCmdLine [''-v'', ''--name='', ''next''] Empty [?v, ?n, ?x] [] :: (Node, Log) CmdLine"
  let ?st = "newCmdLine [] Empty [?v, ?n, ?x] [(''-v'', None)] :: (Node, Log) CmdLine"
  let ?mid = "newCmdLine [''next''] Empty [?v, ?n, ?x] [(''-v'', None)] :: (Node, Log) CmdLine"
  let ?end = "newCmdLine [] Empty [?v, ?n, ?x]
                [(''-v'', None), (''--name'', Some ''next'')] :: (Node, Log) CmdLine"
  have eq: "find_char (CHR ''='') ''--name='' = Some 6" by code_simp
  have empty: "drop (6 + 1) ''--name='' = []" by simp
  have t: "take 6 ''--name='' = ''--name''" by simp
  have pre: "checkCorrectnessBeforeParsing simpleIface ?cl = None" by code_simp
  have reach: "afterTokens simpleIface (Suc 0) ?cl =
      Some (?st\<lparr>m_context := ''--name='' # [''next'']\<rparr>)"
    by code_simp
  have mid: "?st\<lparr>m_context := [''next'']\<rparr> = ?mid" by (simp add: newCmdLine_def)
  note c8 = C8_empty_value [OF eq empty pre reach, unfolded t mid]
  have r1: "nextWord simpleIface (Suc 0) ?cl = Some (''--name'', ?mid)"
    using c8 by blast
  have d: "dispatch simpleIface ''--name'' ?mid = (None, ?end)" by code_simp
  have l: "parseLoop simpleIface ?end = Some (None, ?end)" by code_simp
  have a: "checkCorrectnessAfterParsing simpleIface ?end = None" by code_simp
  have "parse simpleIface ?cl =
       (case dispatch simpleIface ''--name'' ?mid of
          (Some e, st') \<Rightarrow> Some (Some e, st')
        | (None, st') \<Rightarrow>
            (case parseLoop simpleIface st' of
               None \<Rightarrow> None
             | Some (Some e, c) \<Rightarrow> Some (Some e, c)
             | Some (None, c) \<Rightarrow> Some (checkCorrectnessAfterParsing simpleIface c, c)))"
    using c8 by blast
  then have r2: "parse simpleIface ?cl = Some (None, ?end)"
    unfolding d by (simp add: l a)
  have reach2: "afterTokens simpleIface (Suc 0) (?cl\<lparr>m_context := [''-v'', ''--name'', ''next'']\<rparr>) =
      Some (?st\<lparr>m_context := ''--name'' # [''next'']\<rparr>)"
    by code_simp
  have cl2: "?cl\<lparr>m_context := [''-v'', ''--name'', ''next'']\<rparr> =
      newCmdLine [''-v'', ''--name'', ''next''] Empty [?v, ?n, ?x] []"
    by (simp add: newCmdLine_def)
  have "parse simpleIface (?cl\<lparr>m_context := [''-v'', ''--name'', ''next'']\<rparr>) =
      parse simpleIface ?cl"
    using c8 reach2 by blast
  then have r3: "parse simpleIface (newCmdLine [''-v'', ''--name'', ''next''] Empty [?v, ?n, ?x] []) =
      parse simpleIface ?cl"
    unfolding cl2 .
  from r1 r2 r3 show ?thesis by blast
qed

section \<open>Lookup\<close>

lemma find_if_first:
  assumes "\<forall>a\<in>set before. \<not> p a" and "p it"
  shows "find_if p (before @ it # after) = Some it"
  using assms by (induction before) auto

lemma find_if_none: "(\<forall>a\<in>set xs. \<not> p a) \<Longrightarrow> find_if p xs = None"
  by (induction xs) auto

text \<open>
  Claim C10. Let \<open>it\<close> be the first top-level node, in registration order, whose own
  \<open>findArgument\<close> finds the name. If \<open>it\<close> is a command, the engine's
  \<open>findArgument\<close> returns \<open>it\<close> itself, whatever node the command found (a child
  as well); otherwise it returns what \<open>it\<close> found. In both cases the active command
  is not asked. When no top-level node finds the name, the result is what the active
  command's \<open>findChild\<close> finds, and nothing when there is no active command or it
  finds nothing.
\<close>

theorem C10_findArgument:
  "(\<forall>before it after.
      m_args cl = before @ it # after \<and>
      (\<forall>a\<in>set before. arg_findArgument iface a name = None) \<and>
      arg_findArgument iface it name \<noteq> None \<longrightarrow>
      findArgument iface cl name =
        (if arg_type iface it = Command then Some it else arg_findArgument iface it name)) \<and>
   ((\<forall>a\<in>set (m_args cl). arg_findArgument iface a name = None) \<longrightarrow>
      findArgument iface cl name =
        (case m_command cl of
           None \<Rightarrow> None
         | Some cmd \<Rightarrow> cmd_findChild iface cmd name))"
proof (intro conjI allI impI)
  fix before it after
  assume h: "m_args cl = before @ it # after \<and>
      (\<forall>a\<in>set before. arg_findArgument iface a name = None) \<and>
      arg_findArgument iface it name \<noteq> None"
  have "find_if (\<lambda>arg. arg_findArgument iface arg name \<noteq> None) (before @ it # after) = Some it"
    using h by (intro find_if_first) simp_all
  with h show "findArgument iface cl name =
        (if arg_type iface it = Command then Some it else arg_findArgument iface it name)"
    by (simp add: findArgument_def)
next
  assume "\<forall>a\<in>set (m_args cl). arg_findArgument iface a name = None"
  then have "find_if (\<lambda>arg. arg_findArgument iface arg name \<noteq> None) (m_args cl) = None"
    by (intro find_if_none) simp
  then show "findArgument iface cl name =
        (case m_command cl of None \<Rightarrow> None | Some cmd \<Rightarrow> cmd_findChild iface cmd name)"
    by (simp add: findArgument_def split: option.splits)
qed

theorem C10_findArgument_witness:
  "findArgument simpleIface
     (newCmdLine [] Empty
        [Node Flag ''-a'' False False [],
         Node Command ''push'' False False [Node Named ''--force'' False False []],
         Node Named ''--force'' False False []] []) ''--force'' =
   Some (Node Command ''push'' False False [Node Named ''--force'' False False []]) \<and>
   findArgument simpleIface
     (\<lparr> m_context = [], m_args = [Node Flag ''-a'' False False []],
        m_command = Some (Node Command ''push'' False False [Node Named ''--force'' False False []]),
        m_opt = Empty, heap = [] \<rparr>) ''--force'' =
   Some (Node Named ''--force'' False False [])"
proof -
  let ?a = "Node Flag ''-a'' False False []"
  let ?f = "Node Named ''--force'' False False []"
  let ?p = "Node Command ''push'' False False [?f]"
  let ?cl = "newCmdLine [] Empty [?a, ?p, ?f] [] :: (Node, Log) CmdLine"
  let ?cl2 = "\<lparr> m_context = [], m_args = [?a], m_command = Some ?p,
        m_opt = Empty, heap = [] \<rparr> :: (Node, Log) CmdLine"
  have args: "m_args ?cl = [?a] @ ?p # [?f]" by (simp add: newCmdLine_def)
  have before: "\<forall>a\<in>set [?a]. arg_findArgument simpleIface a ''--force'' = None"
    by code_simp
  have found: "arg_findArgument simpleIface ?p ''--force'' \<noteq> None"
    by code_simp
  have ty: "arg_type simpleIface ?p = Command" by code_simp
  have "findArgument simpleIface ?cl ''--force'' =
      (if arg_type simpleIface ?p = Command then Some ?p
       else arg_findArgument simpleIface ?p ''--force'')"
    using C10_findArgument [of ?cl simpleIface "''--force''", THEN conjunct1]
      args before found by blast
  then have p1: "findArgument simpleIface ?cl ''--force'' = Some ?p"
    using ty by simp
  have none: "\<forall>a\<in>set (m_args ?cl2). arg_findArgument simpleIface a ''--force'' = None"
    by code_simp
  have child: "cmd_findChild simpleIface ?p ''--force'' = Some ?f"
    by code_simp
  have "findArgument simpleIface ?cl2 ''--force'' =
      (case m_command ?cl2 of None \<Rightarrow> None | Some cmd \<Rightarrow> cmd_findChild simpleIface cmd ''--force'')"
    using C10_findArgument [of ?cl2 simpleIface "''--force''", THEN conjunct2] none
    by (rule mp)
  then have p2: "findArgument simpleIface ?cl2 ''--force'' = Some ?f"
    using child by simp
  from p1 p2 show ?thesis by blast
qed

section \<open>The diagnostic for an unknown word\<close>

text \<open>
  Claim C9. Let the word of a token, outside a flags combo, resolve to no node. Then
  \<open>parse\<close> fails, whatever the misspelling search finds. When every top-level node
  answers the search by appending its matches \<open>ms\<close> to the list and reporting whether
  there are any, the search returns the matches of all top-level nodes in registration
  order, and the error message is the plain one when there are none and the one with the
  matches joined by \<open>or\<close> otherwise.
\<close>

theorem C9_unknown_word_diagnostic:
  assumes pre: "checkCorrectnessBeforeParsing iface cl = None"
    and nw: "nextWord iface k cl = Some (word, st)"
    and form: "isArgument iface word \<or> \<not> isFlag iface word"
    and unres: "findArgument iface st word = None"
  shows \<open>(\<exists>e. parse iface cl = Some (Some e, st)) \<and>
     ((\<forall>arg\<in>set (m_args st). \<forall>names.
         misspellingQuery iface st word arg names = (ms arg \<noteq> [], names @ ms arg)) \<longrightarrow>
      isMisspelledName iface st word [] =
        (concat (map ms (m_args st)) \<noteq> [], concat (map ms (m_args st))) \<and>
      parse iface cl =
        Some (Some (BaseException
                (if concat (map ms (m_args st)) = [] then
                   ''Unknown argument "'' @ word @ ''".''
                 else
                   ''Unknown argument "'' @ word @ ''".\<newline>\<newline>Probably you mean "'' @
                   joinWith '' or '' (concat (map ms (m_args st))) @ ''".'')), st))\<close>
proof -
  have d: "dispatch iface word st = (printInfoAboutUnknownArgument iface st word, st)"
    using form unres by (rule dispatch_unknown)
  obtain e where e: "printInfoAboutUnknownArgument iface st word = Some e"
    using printInfoAboutUnknownArgument_throws [of iface st word] by auto
  have p: "parse iface cl = Some (Some e, st)"
    using pre nw d e by (intro parse_dispatch_fail) simp_all
  have c: \<open>isMisspelledName iface st word [] =
        (concat (map ms (m_args st)) \<noteq> [], concat (map ms (m_args st))) \<and>
      parse iface cl =
        Some (Some (BaseException
                (if concat (map ms (m_args st)) = [] then
                   ''Unknown argument "'' @ word @ ''".''
                 else
                   ''Unknown argument "'' @ word @ ''".\<newline>\<newline>Probably you mean "'' @
                   joinWith '' or '' (concat (map ms (m_args st))) @ ''".'')), st)\<close>
    if contract: "\<forall>arg\<in>set (m_args st). \<forall>names.
         misspellingQuery iface st word arg names = (ms arg \<noteq> [], names @ ms arg)"
  proof -
    define s where "s = concat (map ms (m_args st))"
    have m: "isMisspelledName iface st word [] = (s \<noteq> [], s)"
      unfolding s_def using contract by (rule isMisspelledName_collects)
    have \<open>printInfoAboutUnknownArgument iface st word =
        Some (BaseException
                (if s = [] then
                   ''Unknown argument "'' @ word @ ''".''
                 else
                   ''Unknown argument "'' @ word @ ''".\<newline>\<newline>Probably you mean "'' @
                   joinWith '' or '' s @ ''".''))\<close>
      by (cases "s = []")
        (simp_all add: printInfoAboutUnknownArgument_def m formatCorrectNamesString_join)
    with e have \<open>e = BaseException
                (if s = [] then
                   ''Unknown argument "'' @ word @ ''".''
                 else
                   ''Unknown argument "'' @ word @ ''".\<newline>\<newline>Probably you mean "'' @
                   joinWith '' or '' s @ ''".'')\<close>
      by simp
    with p m show ?thesis unfolding s_def by simp
  qed
  from p c show ?thesis by blast
qed

theorem C9_unknown_word_diagnostic_witness:
  \<open>parse simpleIface
     (newCmdLine [''ad''] Empty
        [Node Command ''add'' False False [Node Flag ''-d'' False False []],
         Node Flag ''-a'' False False [],
         Node Named ''--verbose'' False False [],
         Node Named ''a'' False False []] []) =
   Some (Some (BaseException
           ''Unknown argument "ad".\<newline>\<newline>Probably you mean "add or -a or a".''),
         newCmdLine [] Empty
        [Node Command ''add'' False False [Node Flag ''-d'' False False []],
         Node Flag ''-a'' False False [],
         Node Named ''--verbose'' False False [],
         Node Named ''a'' False False []] []) \<and>
   parse simpleIface
     (newCmdLine [''status''] Empty [Node Flag ''-a'' False False []] []) =
   Some (Some (BaseException ''Unknown argument "status".''),
         newCmdLine [] Empty [Node Flag ''-a'' False False []] [])\<close>
proof -
  let ?c = "Node Command ''add'' False False [Node Flag ''-d'' False False []]"
  let ?a = "Node Flag ''-a'' False False []"
  let ?v = "Node Named ''--verbose'' False False []"
  let ?n = "Node Named ''a'' False False []"
  let ?cl = "newCmdLine [''ad''] Empty [?c, ?a, ?v, ?n] [] :: (Node, Log) CmdLine"
  let ?st = "newCmdLine [] Empty [?c, ?a, ?v, ?n] [] :: (Node, Log) CmdLine"
  let ?ms = "\<lambda>n. if n = ?c then [''add''] else if n = ?a then [''-a'']
                 else if n = ?n then [''a''] else []"
  have pre: "checkCorrectnessBeforeParsing simpleIface ?cl = None" by code_simp
  have nw: "nextWord simpleIface 0 ?cl = Some (''ad'', ?st)" by code_simp
  have form: "isArgument simpleIface ''ad'' \<or> \<not> isFlag simpleIface ''ad''" by code_simp
  have unres: "findArgument simpleIface ?st ''ad'' = None" by code_simp
  have contract: "\<forall>arg\<in>set (m_args ?st). \<forall>names.
      misspellingQuery simpleIface ?st ''ad'' arg names = (?ms arg \<noteq> [], names @ ?ms arg)"
    by (simp add: newCmdLine_def misspellingQuery_def simpleIface_def
        simple_isMisspelledCommand_def withinThreshold_def)
  have sugg: "concat (map ?ms (m_args ?st)) = [''add'', ''-a'', ''a'']"
    by (simp add: newCmdLine_def)
  have j: "joinWith '' or '' [''add'', ''-a'', ''a''] = ''add or -a or a''" by simp
  have p1: \<open>parse simpleIface ?cl =
      Some (Some (BaseException
           ''Unknown argument "ad".\<newline>\<newline>Probably you mean "add or -a or a".''), ?st)\<close>
    using C9_unknown_word_diagnostic [OF pre nw form unres, where ms = ?ms,
        THEN conjunct2, THEN mp, OF contract, THEN conjunct2]
    unfolding sugg j by simp
  let ?dl = "newCmdLine [''status''] Empty [?a] [] :: (Node, Log) CmdLine"
  let ?dt = "newCmdLine [] Empty [?a] [] :: (Node, Log) CmdLine"
  have pre2: "checkCorrectnessBeforeParsing simpleIface ?dl = None" by code_simp
  have nw2: "nextWord simpleIface 0 ?dl = Some (''status'', ?dt)" by code_simp
  have form2: "isArgument simpleIface ''status'' \<or> \<not> isFlag simpleIface ''status''"
    by code_simp
  have unres2: "findArgument simpleIface ?dt ''status'' = None" by code_simp
  have far: "\<not> withinThreshold ''status'' ''-a''" by code_simp
  have contract2: "\<forall>arg\<in>set (m_args ?dt). \<forall>names.
      misspellingQuery simpleIface ?dt ''status'' arg names =
        ((\<lambda>n. []) arg \<noteq> [], names @ (\<lambda>n. []) arg)"
    using far by (simp add: newCmdLine_def misspellingQuery_def simpleIface_def)
  have p2: \<open>parse simpleIface ?dl =
      Some (Some (BaseException ''Unknown argument "status".''), ?dt)\<close>
    using C9_unknown_word_diagnostic [OF pre2 nw2 form2 unres2, where ms = "\<lambda>n. []",
        THEN conjunct2, THEN mp, OF contract2, THEN conjunct2]
    by simp
  from p1 p2 show ?thesis by blast
qed

end
